theory Spec2Isabelle
  imports Main "HOL-Library.Char_ord" "HOL-Library.List_Lexorder" "HOL-Library.Product_Lexorder"
begin

section \<open>Text primitives of the monitor\<close>

text \<open>
  The monitor (\<^verbatim>\<open>rin_monitor_cli.py\<close>, class \<^verbatim>\<open>RINMonitor\<close>) works on Python
  \<^verbatim>\<open>str\<close> values. A text is modelled as a \<^typ>\<open>string\<close> whose characters are the
  code points 0..255; on that range the character classes of Python's \<^verbatim>\<open>re\<close> module
  and \<^verbatim>\<open>str.lower\<close> are as written below.
\<close>

definition is_space :: "char \<Rightarrow> bool" where
  \<comment> \<open>\<^verbatim>\<open>\s\<close> of a \<^verbatim>\<open>str\<close> pattern: the code points for which \<^verbatim>\<open>str.isspace\<close> holds
      (9 to 13, 28 to 32, 133 and 160)\<close>
  "is_space c =
     ((CHR 0x09 \<le> c \<and> c \<le> CHR 0x0D) \<or> (CHR 0x1C \<le> c \<and> c \<le> CHR 0x20)
      \<or> c = CHR 0x85 \<or> c = CHR 0xA0)"

definition is_quote :: "char \<Rightarrow> bool" where
  \<comment> \<open>the class \<^verbatim>\<open>["']\<close>\<close>
  "is_quote c = (c = CHR 0x22 \<or> c = CHR 0x27)"

definition is_digit :: "char \<Rightarrow> bool" where
  \<comment> \<open>\<^verbatim>\<open>\d\<close>\<close>
  "is_digit c = (CHR ''0'' \<le> c \<and> c \<le> CHR ''9'')"

definition is_upper :: "char \<Rightarrow> bool" where
  \<comment> \<open>the capital letters: A to Z, and 192 to 222 without the multiplication sign\<close>
  "is_upper c =
     ((CHR ''A'' \<le> c \<and> c \<le> CHR ''Z'') \<or> (CHR 0xC0 \<le> c \<and> c \<le> CHR 0xDE \<and> c \<noteq> CHR 0xD7))"

definition lower_char :: "char \<Rightarrow> char" where
  \<comment> \<open>a capital letter's small letter is 32 code points above it: the bit of value 32 is set\<close>
  "lower_char c =
     (if is_upper c
      then (case c of Char b0 b1 b2 b3 b4 b5 b6 b7 \<Rightarrow> Char b0 b1 b2 b3 b4 True b6 b7)
      else c)"

definition lower :: "string \<Rightarrow> string" where
  \<comment> \<open>\<^verbatim>\<open>str.lower\<close>\<close>
  "lower s = map lower_char s"

definition char_eq :: "bool \<Rightarrow> char \<Rightarrow> char \<Rightarrow> bool" where
  \<comment> \<open>a literal pattern character against a text character; the flag is \<^verbatim>\<open>re.IGNORECASE\<close>\<close>
  "char_eq ic p c = (if ic then lower_char p = lower_char c else p = c)"

fun strip_literal :: "bool \<Rightarrow> string \<Rightarrow> string \<Rightarrow> string option" where
  \<comment> \<open>a literal pattern at the head of the text: the text after it, or no match\<close>
  "strip_literal ic [] s = Some s"
| "strip_literal ic (p # ps) [] = None"
| "strip_literal ic (p # ps) (c # cs) =
     (if char_eq ic p c then strip_literal ic ps cs else None)"

fun contains :: "string \<Rightarrow> string \<Rightarrow> bool" where
  \<comment> \<open>\<^verbatim>\<open>pat in s\<close>\<close>
  "contains pat [] = (pat = [])"
| "contains pat (c # cs) = (strip_literal False pat (c # cs) \<noteq> None \<or> contains pat cs)"

section \<open>Normalizer and fingerprint\<close>

text \<open>
  \<^verbatim>\<open>re.sub(pattern, '', content)\<close> scans the text from the left. A matcher gives, for the
  text at the current position, the text after the match that starts there (or no match).
  After a match the scan goes on behind it; a match that consumes nothing copies one
  character and goes on, as \<^verbatim>\<open>re.sub\<close> does.
\<close>

type_synonym matcher = "string \<Rightarrow> string option"

fun re_sub :: "matcher \<Rightarrow> string \<Rightarrow> string" where
  "re_sub m [] = []"
| "re_sub m (c # cs) =
     (case m (c # cs) of
        None \<Rightarrow> c # re_sub m cs
      | Some rest \<Rightarrow> if length rest \<le> length cs then re_sub m rest else c # re_sub m cs)"

definition attr_matcher :: "bool \<Rightarrow> string \<Rightarrow> matcher" where
  \<comment> \<open>\<^verbatim>\<open>\s+NAME=["'][^"']*["']\<close>: the greedy \<^verbatim>\<open>\s+\<close> takes the whole run of white space
      (the name starts with a letter), the greedy \<^verbatim>\<open>[^"']*\<close> runs to the next quote\<close>
  "attr_matcher ic name s =
     (if takeWhile is_space s = [] then None
      else case strip_literal ic (name @ ''='') (dropWhile is_space s) of
        None \<Rightarrow> None
      | Some r1 \<Rightarrow>
          (case r1 of
             [] \<Rightarrow> None
           | q # r2 \<Rightarrow>
               if \<not> is_quote q then None
               else (case dropWhile (\<lambda>c. \<not> is_quote c) r2 of
                       [] \<Rightarrow> None
                     | q' # r3 \<Rightarrow> Some r3)))"

fun after_first :: "string \<Rightarrow> string \<Rightarrow> string option" where
  \<comment> \<open>the text after the first occurrence of a literal\<close>
  "after_first pat [] = strip_literal False pat []"
| "after_first pat (c # cs) =
     (case strip_literal False pat (c # cs) of
        Some rest \<Rightarrow> Some rest
      | None \<Rightarrow> after_first pat cs)"

definition comment_matcher :: matcher where
  \<comment> \<open>\<^verbatim>\<open><!--.*?-->\<close> with \<^verbatim>\<open>re.DOTALL\<close>: from the opener to the first closer behind it\<close>
  "comment_matcher s =
     (case strip_literal False ''<!--'' s of
        None \<Rightarrow> None
      | Some r \<Rightarrow> after_first ''-->'' r)"

definition matchers :: "matcher list" where
  \<comment> \<open>the seven substitutions of \<^verbatim>\<open>normalize_xml_for_comparison\<close>, in source order\<close>
  "matchers =
     [attr_matcher False ''RUN_DATE'',
      attr_matcher True ''run_date'',
      attr_matcher False ''RUNDATE'',
      attr_matcher True ''rundate'',
      attr_matcher True ''timestamp'',
      attr_matcher True ''generated'',
      comment_matcher]"

definition normalize_xml_for_comparison :: "string \<Rightarrow> string" where
  "normalize_xml_for_comparison content = foldl (\<lambda>c m. re_sub m c) content matchers"

definition get_content_hash :: "(string \<Rightarrow> 'd) \<Rightarrow> string \<Rightarrow> 'd" where
  \<comment> \<open>\<^verbatim>\<open>hashlib.md5(normalized.encode('utf-8')).hexdigest()\<close>; the digest function of the
      library is the parameter \<open>md5\<close>\<close>
  "get_content_hash md5 content = md5 (normalize_xml_for_comparison content)"

fun has_match :: "matcher \<Rightarrow> string \<Rightarrow> bool" where
  \<comment> \<open>some position of the text at which the matcher matches\<close>
  "has_match m [] = False"
| "has_match m (c # cs) = (m (c # cs) \<noteq> None \<or> has_match m cs)"

definition has_volatile :: "string \<Rightarrow> bool" where
  \<comment> \<open>the text still holds a span that one of the seven substitutions removes\<close>
  "has_volatile s = list_ex (\<lambda>m. has_match m s) matchers"

definition proper :: "matcher \<Rightarrow> bool" where
  \<comment> \<open>every match consumes at least one character\<close>
  "proper m = (\<forall>s r. m s = Some r \<longrightarrow> length r < length s)"

section \<open>Configuration\<close>

text \<open>
  The configuration is the dictionary read from \<^verbatim>\<open>config.json\<close>. The keys that the code
  reads with \<^verbatim>\<open>.get(key, default)\<close> may be absent; the key \<^verbatim>\<open>email\<close> is read with
  \<^verbatim>\<open>self.config['email']\<close> and is a field of the record.
\<close>

datatype error = RequestException | AttributeError

datatype 'a pyval = PyNone | PyObj 'a

record email_config =
  smtp_server :: string
  smtp_port :: int
  username :: string
  password :: string
  from_address :: string
  to_address :: string

record config =
  rins :: "string list option"
  data_directory :: "string option"
  keep_files :: "int option"
  email :: email_config

definition default_config :: config where
  \<comment> \<open>the dictionary that \<^verbatim>\<open>create_default_config\<close> builds\<close>
  "default_config =
     \<lparr>rins = Some [], data_directory = Some ''reginfo_data'', keep_files = Some 2,
      email = \<lparr>smtp_server = ''smtp.gmail.com'', smtp_port = 587, username = '''',
               password = '''', from_address = '''', to_address = ''''\<rparr>\<rparr>"

definition create_default_config :: "config pyval" where
  \<comment> \<open>the method binds the dictionary to a local name and ends without a
      \<^verbatim>\<open>return\<close> statement: the call evaluates to \<^verbatim>\<open>None\<close>\<close>
  "create_default_config = (let default_config = default_config in PyNone)"

definition load_config :: "config option \<Rightarrow> config pyval" where
  \<comment> \<open>the argument is the parsed content of the configuration file, if the file exists\<close>
  "load_config file =
     (case file of
        None \<Rightarrow> create_default_config
      | Some c \<Rightarrow> PyObj c)"

definition init :: "config option \<Rightarrow> error + config" where
  \<comment> \<open>\<^verbatim>\<open>__init__\<close>: \<^verbatim>\<open>self.config.get('data_directory', ...)\<close> on \<^verbatim>\<open>None\<close> raises
      \<^verbatim>\<open>AttributeError\<close>\<close>
  "init file =
     (case load_config file of
        PyNone \<Rightarrow> Inl AttributeError
      | PyObj c \<Rightarrow> Inr c)"

section \<open>Catalog resolver\<close>

text \<open>
  The catalog request either fails (any exception of \<^verbatim>\<open>requests.get\<close>,
  \<^verbatim>\<open>raise_for_status\<close> or the parser) or yields a page, of which the code reads the
  \<^verbatim>\<open>href\<close> values of the links of class \<^verbatim>\<open>pageSubNav\<close>, in document order.
\<close>

datatype catalog = Unreachable | Page "string list"

definition pubid_at :: "string \<Rightarrow> string option" where
  \<comment> \<open>\<^verbatim>\<open>REGINFO_RIN_DATA_(\d{6})\.xml\<close> at the head of the text: group 1\<close>
  "pubid_at s =
     (case strip_literal False ''REGINFO_RIN_DATA_'' s of
        None \<Rightarrow> None
      | Some r \<Rightarrow>
          if length (take 6 r) = 6 \<and> list_all is_digit (take 6 r)
             \<and> strip_literal False ''.xml'' (drop 6 r) \<noteq> None
          then Some (take 6 r) else None)"

fun search_pubid :: "string \<Rightarrow> string option" where
  \<comment> \<open>\<^verbatim>\<open>re.search\<close>: the leftmost match\<close>
  "search_pubid [] = None"
| "search_pubid (c # cs) =
     (case pubid_at (c # cs) of Some p \<Rightarrow> Some p | None \<Rightarrow> search_pubid cs)"

definition int_of_digits :: "string \<Rightarrow> int" where
  \<comment> \<open>\<^verbatim>\<open>int(s)\<close> of a string of decimal digits\<close>
  "int_of_digits s = foldl (\<lambda>n c. 10 * n + (of_char c - 48)) 0 s"

definition endswith :: "string \<Rightarrow> string \<Rightarrow> bool" where
  "endswith s suffix = (length suffix \<le> length s \<and> drop (length s - length suffix) s = suffix)"

definition accept_pubid :: "string \<Rightarrow> bool" where
  "accept_pubid pubid =
     (length pubid = 6 \<and> (endswith pubid ''04'' \<or> endswith pubid ''10'')
      \<and> 2020 \<le> int_of_digits (take 4 pubid) \<and> int_of_digits (take 4 pubid) \<le> 2030)"

definition collect_pubids :: "string list \<Rightarrow> string list" where
  \<comment> \<open>the elements of the set \<^verbatim>\<open>pubids\<close> after the loop over the links\<close>
  "collect_pubids hrefs =
     remdups (filter accept_pubid (List.map_filter search_pubid hrefs))"

definition generate_default_pubids :: "error + string list" where
  \<comment> \<open>\<^verbatim>\<open>self.generate_default_pubids()\<close>: the class defines no attribute of this name,
      the attribute lookup raises \<^verbatim>\<open>AttributeError\<close>\<close>
  "generate_default_pubids = Inl AttributeError"

definition agendas_try :: "catalog \<Rightarrow> error + string list" where
  \<comment> \<open>the body of the \<^verbatim>\<open>try\<close> statement\<close>
  "agendas_try cat =
     (case cat of
        Unreachable \<Rightarrow> Inl RequestException
      | Page hrefs \<Rightarrow>
          if collect_pubids hrefs \<noteq> [] then Inr (rev (sort (collect_pubids hrefs)))
          else generate_default_pubids)"

definition get_available_agendas :: "catalog \<Rightarrow> error + string list" where
  \<comment> \<open>\<^verbatim>\<open>except Exception\<close> catches every error of the body, its handler calls the
      generator again\<close>
  "get_available_agendas cat =
     (case agendas_try cat of
        Inr pubids \<Rightarrow> Inr pubids
      | Inl e \<Rightarrow> generate_default_pubids)"

section \<open>Snapshot store\<close>

text \<open>
  A directory of the store is the list of its files in the order in which the file
  system lists them. The file system is reliable: creating, writing and unlinking a file
  succeed. An identifier names its directory and is a plain file name component.
  The environment of one pass supplies what the code reads from outside: the clock (the
  formatted time stamp and the modification time the file system gives a written file),
  the position at which the directory lists a new entry, and the network.
\<close>

record snapshot =
  fname :: string
  mtime :: nat
  content :: string

datatype message =
    Checking_RIN string
  | No_Agendas
  | Latest_Agenda string
  | Error_Fetching
  | Failed_To_Fetch
  | RIN_Not_Found string
  | Change_Detected "string option" string
  | No_Changes
  | Saving_Baseline string
  | Deleted_Old_File string
  | Email_Not_Configured
  | Email_Sent_To string
  | Email_Error
  | No_RINs
  | Monitoring nat
  | Complete nat

text \<open>
  What a pass does to the world is kept as a list of events: a file written (name and
  text), a file unlinked, a line printed, the notifier called (identifier, old and new
  batch, diff text, old and new file) and a mail handed to the SMTP server (identifier,
  old and new batch, the diff preview).
\<close>

datatype event =
    Wrote string string
  | Deleted string
  | Printed message
  | Notifier_Called string "string option" string string string string
  | Email_Sent string "string option" string string

record store =
  dirs :: "string \<Rightarrow> snapshot list option"
  events :: "event list"

record env =
  catalog :: catalog
  document :: "string option"
  stamp :: string
  mtime_now :: nat
  slot :: nat
  smtp_ok :: bool

fun glob_match :: "string \<Rightarrow> string \<Rightarrow> bool" where
  \<comment> \<open>a glob pattern against a file name: \<^verbatim>\<open>*\<close> is any run of characters, \<^verbatim>\<open>?\<close> any
      one character, every other character itself; bracket expressions are not modelled\<close>
  "glob_match [] s = (s = [])"
| "glob_match (p # ps) s =
     (if p = CHR ''*''
      then (glob_match ps s \<or> (case s of [] \<Rightarrow> False | c # cs \<Rightarrow> glob_match (p # ps) cs))
      else (case s of [] \<Rightarrow> False | c # cs \<Rightarrow> (p = CHR ''?'' \<or> p = c) \<and> glob_match ps cs))"


definition snapshot_pattern :: "string \<Rightarrow> string" where
  "snapshot_pattern rin = ''rin_'' @ rin @ ''_*.xml''"

definition glob :: "snapshot list \<Rightarrow> string \<Rightarrow> snapshot list" where
  "glob dir pat = filter (\<lambda>f. glob_match pat (fname f)) dir"

definition sorted_desc :: "('a \<Rightarrow> 'k::linorder) \<Rightarrow> 'a list \<Rightarrow> 'a list" where
  \<comment> \<open>\<^verbatim>\<open>sorted(xs, key=key, reverse=True)\<close>: stable, elements of equal key keep their order\<close>
  "sorted_desc key xs = rev (sort_key key (rev xs))"

definition slice_from :: "int \<Rightarrow> 'a list \<Rightarrow> 'a list" where
  \<comment> \<open>\<^verbatim>\<open>xs[k:]\<close>; a negative \<open>k\<close> counts from the end\<close>
  "slice_from k xs = (if 0 \<le> k then drop (nat k) xs else drop (length xs - nat (- k)) xs)"

definition files_of :: "store \<Rightarrow> string \<Rightarrow> snapshot list" where
  "files_of st rin = (case dirs st rin of None \<Rightarrow> [] | Some d \<Rightarrow> d)"

definition unlink :: "string \<Rightarrow> store \<Rightarrow> snapshot \<Rightarrow> store" where
  \<comment> \<open>one round of the deletion loop\<close>
  "unlink rin st f =
     st\<lparr>dirs := (dirs st)(rin \<mapsto> filter (\<lambda>g. fname g \<noteq> fname f) (files_of st rin)),
        events := events st @ [Deleted (fname f), Printed (Deleted_Old_File (fname f))]\<rparr>"

definition cleanup_old_files :: "string \<Rightarrow> int \<Rightarrow> store \<Rightarrow> store" where
  "cleanup_old_files rin keep_count st =
     (case dirs st rin of
        None \<Rightarrow> st
      | Some d \<Rightarrow>
          let files = sorted_desc mtime (glob d (snapshot_pattern rin));
              files_to_delete = slice_from keep_count files
          in foldl (unlink rin) st files_to_delete)"

definition snapshot_name :: "string \<Rightarrow> string \<Rightarrow> string \<Rightarrow> string" where
  "snapshot_name rin pubid timestamp = ''rin_'' @ rin @ ''_'' @ pubid @ ''_'' @ timestamp @ ''.xml''"

definition write_file :: "env \<Rightarrow> string \<Rightarrow> string \<Rightarrow> snapshot list \<Rightarrow> snapshot list" where
  \<comment> \<open>\<^verbatim>\<open>open(filename, 'w')\<close> and \<^verbatim>\<open>f.write(content)\<close>: an existing file of this name is
      overwritten in place, a new one gets a directory entry\<close>
  "write_file e name text d =
     (if name \<in> fname ` set d
      then map (\<lambda>f. if fname f = name then f\<lparr>mtime := mtime_now e, content := text\<rparr> else f) d
      else take (slot e) d @ [\<lparr>fname = name, mtime = mtime_now e, content = text\<rparr>] @ drop (slot e) d)"

definition keep_count :: "config \<Rightarrow> int" where
  \<comment> \<open>\<^verbatim>\<open>self.config.get('keep_files', 2)\<close>\<close>
  "keep_count cfg = (case keep_files cfg of None \<Rightarrow> 2 | Some k \<Rightarrow> k)"

definition save_rin_xml :: "config \<Rightarrow> env \<Rightarrow> string \<Rightarrow> string \<Rightarrow> string \<Rightarrow> store \<Rightarrow> string \<times> store" where
  "save_rin_xml cfg e rin pubid text st =
     (let filename = snapshot_name rin pubid (stamp e);
          st1 = st\<lparr>dirs := (dirs st)(rin \<mapsto> write_file e filename text (files_of st rin)),
                   events := events st @ [Wrote filename text]\<rparr>
      in (filename, cleanup_old_files rin (keep_count cfg) st1))"

definition batch_at :: "string \<Rightarrow> string option" where
  \<comment> \<open>\<^verbatim>\<open>rin_[^_]+_(\d{6})_\<close> at the head of the text: group 1\<close>
  "batch_at s =
     (case strip_literal False ''rin_'' s of
        None \<Rightarrow> None
      | Some r \<Rightarrow>
          if takeWhile (\<lambda>c. c \<noteq> CHR ''_'') r = [] then None
          else (case strip_literal False ''_'' (dropWhile (\<lambda>c. c \<noteq> CHR ''_'') r) of
                  None \<Rightarrow> None
                | Some r1 \<Rightarrow>
                    if length (take 6 r1) = 6 \<and> list_all is_digit (take 6 r1)
                       \<and> strip_literal False ''_'' (drop 6 r1) \<noteq> None
                    then Some (take 6 r1) else None))"

fun search_batch :: "string \<Rightarrow> string option" where
  "search_batch [] = None"
| "search_batch (c # cs) =
     (case batch_at (c # cs) of Some p \<Rightarrow> Some p | None \<Rightarrow> search_batch cs)"

definition get_latest_file_for_rin :: "store \<Rightarrow> string \<Rightarrow> string option \<times> snapshot option" where
  \<comment> \<open>\<^verbatim>\<open>sorted(rin_dir.glob(pattern), reverse=True)\<close> orders the paths, that is the file names\<close>
  "get_latest_file_for_rin st rin =
     (case dirs st rin of
        None \<Rightarrow> (None, None)
      | Some d \<Rightarrow>
          (case sorted_desc fname (glob d (snapshot_pattern rin)) of
             [] \<Rightarrow> (None, None)
           | latest_file # _ \<Rightarrow>
               (case search_batch (fname latest_file) of
                  Some pubid \<Rightarrow> (Some pubid, Some latest_file)
                | None \<Rightarrow> (None, Some latest_file))))"

section \<open>Differ\<close>

text \<open>
  \<^verbatim>\<open>compare_xml\<close> calls \<^verbatim>\<open>str.splitlines(keepends=True)\<close> and
  \<^verbatim>\<open>difflib.unified_diff\<close> of the standard library. The definitions below follow
  \<^verbatim>\<open>difflib.SequenceMatcher\<close> with its defaults (\<^verbatim>\<open>isjunk=None\<close>, \<^verbatim>\<open>autojunk=True\<close>) and
  \<^verbatim>\<open>unified_diff\<close> with three lines of context.
\<close>

definition is_linebreak :: "char \<Rightarrow> bool" where
  \<comment> \<open>the line boundaries of \<^verbatim>\<open>str.splitlines\<close>: 10 to 13, 28 to 30 and 133\<close>
  "is_linebreak c =
     ((CHR 0x0A \<le> c \<and> c \<le> CHR 0x0D) \<or> (CHR 0x1C \<le> c \<and> c \<le> CHR 0x1E) \<or> c = CHR 0x85)"

fun splitlines_from :: "string \<Rightarrow> string \<Rightarrow> string list" where
  \<comment> \<open>the first argument is the line read so far; \<^verbatim>\<open>\r\n\<close> ends one line\<close>
  "splitlines_from acc [] = (if acc = [] then [] else [acc])"
| "splitlines_from acc (c # cs) =
     (if c = CHR 0x0D then
        (case cs of
           [] \<Rightarrow> [acc @ [c]]
         | d # ds \<Rightarrow>
             if d = CHR 0x0A then (acc @ [c, d]) # splitlines_from [] ds
             else (acc @ [c]) # splitlines_from [] (d # ds))
      else if is_linebreak c then (acc @ [c]) # splitlines_from [] cs
      else splitlines_from (acc @ [c]) cs)"

definition splitlines :: "string \<Rightarrow> string list" where
  "splitlines s = splitlines_from [] s"

subsection \<open>SequenceMatcher\<close>

type_synonym block = "nat \<times> nat \<times> nat"

datatype tag = Replace | Delete | Insert | Equal

type_synonym opcode = "tag \<times> nat \<times> nat \<times> nat \<times> nat"

definition indices_of :: "'a list \<Rightarrow> 'a \<Rightarrow> nat list" where
  "indices_of b x = filter (\<lambda>j. b ! j = x) [0..<length b]"

definition b2j :: "'a list \<Rightarrow> 'a \<Rightarrow> nat list" where
  \<comment> \<open>\<^verbatim>\<open>__chain_b\<close>: the positions of an element in \<open>b\<close>; with 200 elements or more the
      popular elements lose their entry\<close>
  "b2j b x =
     (if 200 \<le> length b \<and> length b div 100 + 1 < length (indices_of b x) then []
      else indices_of b x)"

definition prev_len :: "(nat \<times> nat) list \<Rightarrow> nat \<Rightarrow> nat" where
  \<comment> \<open>\<^verbatim>\<open>j2len.get(j-1, 0)\<close>\<close>
  "prev_len j2len j =
     (if j = 0 then 0 else case map_of j2len (j - 1) of None \<Rightarrow> 0 | Some k \<Rightarrow> k)"

definition row_step ::
  "(nat \<times> nat) list \<Rightarrow> nat \<Rightarrow> (nat \<times> nat) list \<times> block \<Rightarrow> nat \<Rightarrow> (nat \<times> nat) list \<times> block" where
  "row_step j2len i acc j =
     (case acc of (newj2len, besti, bestj, bestsize) \<Rightarrow>
        let k = prev_len j2len j + 1
        in if bestsize < k then ((j, k) # newj2len, i + 1 - k, j + 1 - k, k)
           else ((j, k) # newj2len, besti, bestj, bestsize))"

definition scan_row ::
  "'a list \<Rightarrow> 'a list \<Rightarrow> nat \<Rightarrow> nat \<Rightarrow> (nat \<times> nat) list \<times> block \<Rightarrow> nat \<Rightarrow> (nat \<times> nat) list \<times> block" where
  \<comment> \<open>one round of the loop over \<open>i\<close>: positions below \<open>blo\<close> are skipped, the loop over
      \<open>j\<close> ends at \<open>bhi\<close>\<close>
  "scan_row a b blo bhi acc i =
     (case acc of (j2len, best) \<Rightarrow>
        foldl (row_step j2len i) ([], best) (filter (\<lambda>j. blo \<le> j \<and> j < bhi) (b2j b (a ! i))))"

function extend_back :: "'a list \<Rightarrow> 'a list \<Rightarrow> nat \<Rightarrow> nat \<Rightarrow> nat \<Rightarrow> nat \<Rightarrow> nat \<Rightarrow> block" where
  "extend_back a b alo blo besti bestj bestsize =
     (if alo < besti \<and> blo < bestj \<and> a ! (besti - 1) = b ! (bestj - 1)
      then extend_back a b alo blo (besti - 1) (bestj - 1) (bestsize + 1)
      else (besti, bestj, bestsize))"
  by pat_completeness auto
termination
  by (relation "measure (\<lambda>(a, b, alo, blo, besti, bestj, bestsize). besti)") auto

declare extend_back.simps [simp del]

function extend_forward :: "'a list \<Rightarrow> 'a list \<Rightarrow> nat \<Rightarrow> nat \<Rightarrow> nat \<Rightarrow> nat \<Rightarrow> nat \<Rightarrow> block" where
  "extend_forward a b ahi bhi besti bestj bestsize =
     (if besti + bestsize < ahi \<and> bestj + bestsize < bhi
         \<and> a ! (besti + bestsize) = b ! (bestj + bestsize)
      then extend_forward a b ahi bhi besti bestj (bestsize + 1)
      else (besti, bestj, bestsize))"
  by pat_completeness auto
termination
  by (relation "measure (\<lambda>(a, b, ahi, bhi, besti, bestj, bestsize). ahi - (besti + bestsize))") auto

declare extend_forward.simps [simp del]

definition find_longest_match :: "'a list \<Rightarrow> 'a list \<Rightarrow> nat \<Rightarrow> nat \<Rightarrow> nat \<Rightarrow> nat \<Rightarrow> block" where
  \<comment> \<open>no element is junk, so the two loops that extend a match over junk do nothing\<close>
  "find_longest_match a b alo ahi blo bhi =
     (case snd (foldl (scan_row a b blo bhi) ([], (alo, blo, 0)) [alo..<ahi]) of
        (besti, bestj, bestsize) \<Rightarrow>
          (case extend_back a b alo blo besti bestj bestsize of
             (besti, bestj, bestsize) \<Rightarrow> extend_forward a b ahi bhi besti bestj bestsize))"

text \<open>
  The bounds of the block that \<^verbatim>\<open>find_longest_match\<close> returns: it lies inside the range
  of \<open>a\<close> that was searched. The loop of \<^verbatim>\<open>get_matching_blocks\<close> ends because of them.
\<close>

definition lens_le :: "(nat \<times> nat) list \<Rightarrow> nat \<Rightarrow> bool" where
  "lens_le j2len n = (\<forall>(j, k) \<in> set j2len. k \<le> n)"

definition best_in :: "nat \<Rightarrow> nat \<Rightarrow> block \<Rightarrow> bool" where
  "best_in alo hi best = (case best of (i, j, k) \<Rightarrow> alo \<le> i \<and> i + k \<le> hi)"

lemma prev_len_le: "lens_le j2len n \<Longrightarrow> prev_len j2len j \<le> n"
  unfolding prev_len_def lens_le_def
  by (auto split: option.splits dest!: map_of_SomeD)

lemma row_step_inv:
  assumes "lens_le j2len n" "lens_le (fst acc) (Suc n)" "best_in alo (Suc (alo + n)) (snd acc)"
  shows "lens_le (fst (row_step j2len (alo + n) acc j)) (Suc n)
         \<and> best_in alo (Suc (alo + n)) (snd (row_step j2len (alo + n) acc j))"
proof -
  obtain new bi bj bk where acc: "acc = (new, bi, bj, bk)" by (cases acc) auto
  have k: "prev_len j2len j \<le> n" using assms(1) by (rule prev_len_le)
  show ?thesis using assms(2,3) k unfolding acc row_step_def lens_le_def best_in_def
    by (auto simp: Let_def)
qed

lemma row_fold_inv:
  assumes "lens_le j2len n" "lens_le (fst acc) (Suc n)" "best_in alo (Suc (alo + n)) (snd acc)"
  shows "lens_le (fst (foldl (row_step j2len (alo + n)) acc js)) (Suc n)
         \<and> best_in alo (Suc (alo + n)) (snd (foldl (row_step j2len (alo + n)) acc js))"
  using assms(2,3)
proof (induction js arbitrary: acc)
  case Nil
  then show ?case by simp
next
  case (Cons j js)
  from row_step_inv [OF assms(1) Cons.prems] Cons.IH show ?case by simp
qed

lemma scan_row_inv:
  assumes "lens_le (fst acc) n" "best_in alo (alo + n) (snd acc)"
  shows "lens_le (fst (scan_row a b blo bhi acc (alo + n))) (Suc n)
         \<and> best_in alo (Suc (alo + n)) (snd (scan_row a b blo bhi acc (alo + n)))"
proof -
  obtain j2len best where acc: "acc = (j2len, best)" by (cases acc) auto
  have 1: "lens_le (fst ([], best)) (Suc n)" by (simp add: lens_le_def)
  have 2: "best_in alo (Suc (alo + n)) (snd ([], best))"
    using assms(2) unfolding acc best_in_def by (auto split: prod.splits)
  from assms(1) have 0: "lens_le j2len n" by (simp add: acc)
  from row_fold_inv [OF 0 1 2] show ?thesis by (simp add: acc scan_row_def)
qed

lemma scan_rows_inv:
  "lens_le (fst (foldl (scan_row a b blo bhi) ([], (alo, blo, 0)) [alo..<alo + n])) n
   \<and> best_in alo (alo + n) (snd (foldl (scan_row a b blo bhi) ([], (alo, blo, 0)) [alo..<alo + n]))"
proof (induction n)
  case 0
  then show ?case by (simp add: lens_le_def best_in_def)
next
  case (Suc n)
  have "[alo..<alo + Suc n] = [alo..<alo + n] @ [alo + n]" by simp
  then have "foldl (scan_row a b blo bhi) ([], (alo, blo, 0)) [alo..<alo + Suc n]
      = scan_row a b blo bhi (foldl (scan_row a b blo bhi) ([], (alo, blo, 0)) [alo..<alo + n]) (alo + n)"
    by (simp del: upt_Suc)
  moreover from Suc have "lens_le (fst (foldl (scan_row a b blo bhi) ([], (alo, blo, 0)) [alo..<alo + n])) n"
    and "best_in alo (alo + n) (snd (foldl (scan_row a b blo bhi) ([], (alo, blo, 0)) [alo..<alo + n]))"
    by simp_all
  ultimately show ?case using scan_row_inv by (simp del: upt_Suc)
qed

lemma scan_rows_best:
  "best_in alo (max alo ahi) (snd (foldl (scan_row a b blo bhi) ([], (alo, blo, 0)) [alo..<ahi]))"
proof (cases "alo \<le> ahi")
  case True
  then obtain n where "ahi = alo + n" using le_Suc_ex by blast
  with scan_rows_inv [of a b blo bhi alo n] show ?thesis by (simp add: max_def)
next
  case False
  then show ?thesis by (simp add: best_in_def)
qed

lemma extend_back_best:
  "best_in alo hi (i, j, k) \<Longrightarrow> best_in alo hi (extend_back a b alo blo i j k)"
proof (induction a b alo blo i j k rule: extend_back.induct)
  case (1 a b alo blo besti bestj bestsize)
  show ?case
  proof (cases "alo < besti \<and> blo < bestj \<and> a ! (besti - 1) = b ! (bestj - 1)")
    case True
    with "1.prems" have "best_in alo hi (besti - 1, bestj - 1, bestsize + 1)"
      by (auto simp: best_in_def)
    with True "1.IH" show ?thesis by (subst extend_back.simps) simp
  next
    case False
    with "1.prems" show ?thesis by (subst extend_back.simps) auto
  qed
qed

lemma extend_forward_best:
  "best_in alo (max alo ahi) (i, j, k) \<Longrightarrow> best_in alo (max alo ahi) (extend_forward a b ahi bhi i j k)"
proof (induction a b ahi bhi i j k rule: extend_forward.induct)
  case (1 a b ahi bhi besti bestj bestsize)
  show ?case
  proof (cases "besti + bestsize < ahi \<and> bestj + bestsize < bhi
         \<and> a ! (besti + bestsize) = b ! (bestj + bestsize)")
    case True
    with "1.prems" have "best_in alo (max alo ahi) (besti, bestj, bestsize + 1)"
      by (auto simp: best_in_def)
    with True "1.IH" show ?thesis by (subst extend_forward.simps) simp
  next
    case False
    with "1.prems" show ?thesis by (subst extend_forward.simps) auto
  qed
qed

lemma find_longest_match_best:
  "best_in alo (max alo ahi) (find_longest_match a b alo ahi blo bhi)"
proof -
  obtain i j k where s: "snd (foldl (scan_row a b blo bhi) ([], (alo, blo, 0)) [alo..<ahi]) = (i, j, k)"
    by (metis prod_cases3)
  obtain i' j' k' where e: "extend_back a b alo blo i j k = (i', j', k')"
    by (metis prod_cases3)
  from scan_rows_best [of alo ahi a b blo bhi] s have "best_in alo (max alo ahi) (i, j, k)" by simp
  then have "best_in alo (max alo ahi) (extend_back a b alo blo i j k)" by (rule extend_back_best)
  then have "best_in alo (max alo ahi) (i', j', k')" by (simp add: e)
  then have "best_in alo (max alo ahi) (extend_forward a b ahi bhi i' j' k')"
    by (rule extend_forward_best)
  then show ?thesis by (simp add: find_longest_match_def s e)
qed

lemma find_longest_match_bounds:
  assumes "find_longest_match a b alo ahi blo bhi = (i, j, k)" "k \<noteq> 0"
  shows "alo \<le> i \<and> i + k \<le> ahi"
  using find_longest_match_best [of alo ahi a b blo bhi] assms
  by (auto simp: best_in_def max_def split: if_splits)

lemma find_longest_match_inside:
  "(i, j, k) = find_longest_match a b alo ahi blo bhi \<Longrightarrow> k = 0 \<or> (alo \<le> i \<and> i + k \<le> ahi)"
  using find_longest_match_bounds [of a b alo ahi blo bhi i j k] by auto

function blocks_loop ::
  "'a list \<Rightarrow> 'a list \<Rightarrow> (nat \<times> nat \<times> nat \<times> nat) list \<Rightarrow> block list \<Rightarrow> block list" where
  "blocks_loop a b [] acc = acc"
| "blocks_loop a b ((alo, ahi, blo, bhi) # queue) acc =
     (case find_longest_match a b alo ahi blo bhi of
        (i, j, k) \<Rightarrow>
          if k \<noteq> 0
          then blocks_loop a b
                 ((if i + k < ahi \<and> j + k < bhi then [(i + k, ahi, j + k, bhi)] else [])
                  @ (if alo < i \<and> blo < j then [(alo, i, blo, j)] else []) @ queue)
                 (acc @ [(i, j, k)])
          else blocks_loop a b queue acc)"
  by pat_completeness auto
termination
  by (relation "measure (\<lambda>(a, b, queue, acc).
        sum_list (map (\<lambda>(alo, ahi, blo, bhi). 2 * (ahi - alo) + 1) queue))")
    (auto dest: find_longest_match_inside)

declare blocks_loop.simps [simp del]

fun collapse :: "block \<Rightarrow> block list \<Rightarrow> block list" where
  \<comment> \<open>adjacent blocks become one; the first argument is \<open>(i1, j1, k1)\<close>\<close>
  "collapse (i1, j1, k1) [] = (if k1 \<noteq> 0 then [(i1, j1, k1)] else [])"
| "collapse (i1, j1, k1) ((i2, j2, k2) # blocks) =
     (if i1 + k1 = i2 \<and> j1 + k1 = j2 then collapse (i1, j1, k1 + k2) blocks
      else (if k1 \<noteq> 0 then [(i1, j1, k1)] else []) @ collapse (i2, j2, k2) blocks)"

definition get_matching_blocks :: "'a list \<Rightarrow> 'a list \<Rightarrow> block list" where
  "get_matching_blocks a b =
     collapse (0, 0, 0) (sort (blocks_loop a b [(0, length a, 0, length b)] []))
     @ [(length a, length b, 0)]"

fun opcodes_from :: "nat \<Rightarrow> nat \<Rightarrow> block list \<Rightarrow> opcode list" where
  "opcodes_from i j [] = []"
| "opcodes_from i j ((ai, bj, sz) # blocks) =
     (if i < ai \<and> j < bj then [(Replace, i, ai, j, bj)]
      else if i < ai then [(Delete, i, ai, j, bj)]
      else if j < bj then [(Insert, i, ai, j, bj)]
      else [])
     @ (if sz \<noteq> 0 then [(Equal, ai, ai + sz, bj, bj + sz)] else [])
     @ opcodes_from (ai + sz) (bj + sz) blocks"

definition get_opcodes :: "'a list \<Rightarrow> 'a list \<Rightarrow> opcode list" where
  "get_opcodes a b = opcodes_from 0 0 (get_matching_blocks a b)"

definition trim_first :: "nat \<Rightarrow> opcode list \<Rightarrow> opcode list" where
  "trim_first n codes =
     (case codes of
        (Equal, i1, i2, j1, j2) # rest \<Rightarrow> (Equal, max i1 (i2 - n), i2, max j1 (j2 - n), j2) # rest
      | _ \<Rightarrow> codes)"

definition trim_last :: "nat \<Rightarrow> opcode list \<Rightarrow> opcode list" where
  "trim_last n codes =
     (if codes = [] then codes
      else case last codes of
        (Equal, i1, i2, j1, j2) \<Rightarrow> butlast codes @ [(Equal, i1, min i2 (i1 + n), j1, min j2 (j1 + n))]
      | _ \<Rightarrow> codes)"

fun group_loop :: "nat \<Rightarrow> opcode list \<Rightarrow> opcode list \<Rightarrow> opcode list list" where
  "group_loop n grp [] =
     (if grp \<noteq> [] \<and> \<not> (length grp = 1 \<and> fst (hd grp) = Equal) then [grp] else [])"
| "group_loop n grp ((tag, i1, i2, j1, j2) # codes) =
     (if tag = Equal \<and> n + n < i2 - i1
      then (grp @ [(tag, i1, min i2 (i1 + n), j1, min j2 (j1 + n))])
           # group_loop n [(tag, max i1 (i2 - n), i2, max j1 (j2 - n), j2)] codes
      else group_loop n (grp @ [(tag, i1, i2, j1, j2)]) codes)"

definition get_grouped_opcodes :: "nat \<Rightarrow> 'a list \<Rightarrow> 'a list \<Rightarrow> opcode list list" where
  "get_grouped_opcodes n a b =
     (let codes = get_opcodes a b;
          codes = (if codes = [] then [(Equal, 0, 1, 0, 1)] else codes)
      in group_loop n [] (trim_last n (trim_first n codes)))"

subsection \<open>Unified diff\<close>

fun str_nat :: "nat \<Rightarrow> string" where
  \<comment> \<open>the decimal numeral of a number\<close>
  "str_nat n = (if n < 10 then [char_of (48 + n)] else str_nat (n div 10) @ [char_of (48 + n mod 10)])"

declare str_nat.simps [simp del]

definition format_range_unified :: "nat \<Rightarrow> nat \<Rightarrow> string" where
  "format_range_unified start stop =
     (let beginning = start + 1; len = stop - start
      in if len = 1 then str_nat beginning
         else str_nat (if len = 0 then beginning - 1 else beginning) @ '','' @ str_nat len)"

definition slice :: "'a list \<Rightarrow> nat \<Rightarrow> nat \<Rightarrow> 'a list" where
  \<comment> \<open>\<^verbatim>\<open>xs[i1:i2]\<close>\<close>
  "slice xs i1 i2 = take (i2 - i1) (drop i1 xs)"

definition opcode_lines :: "string list \<Rightarrow> string list \<Rightarrow> opcode \<Rightarrow> string list" where
  "opcode_lines a b code =
     (case code of (tag, i1, i2, j1, j2) \<Rightarrow>
        if tag = Equal then map (\<lambda>line. '' '' @ line) (slice a i1 i2)
        else (if tag = Replace \<or> tag = Delete then map (\<lambda>line. ''-'' @ line) (slice a i1 i2) else [])
             @ (if tag = Replace \<or> tag = Insert then map (\<lambda>line. ''+'' @ line) (slice b j1 j2) else []))"

definition group_lines :: "string list \<Rightarrow> string list \<Rightarrow> string \<Rightarrow> opcode list \<Rightarrow> string list" where
  "group_lines a b lineterm grp =
     (case grp of
        [] \<Rightarrow> []
      | (t, i1, i2, j1, j2) # _ \<Rightarrow>
          (case last grp of (t', i1', i2', j1', j2') \<Rightarrow>
             (''@@ -'' @ format_range_unified i1 i2' @ '' +'' @ format_range_unified j1 j2'
                @ '' @@'' @ lineterm)
             # concat (map (opcode_lines a b) grp)))"

definition unified_diff :: "string list \<Rightarrow> string list \<Rightarrow> string \<Rightarrow> string \<Rightarrow> string \<Rightarrow> string list" where
  \<comment> \<open>the two header lines come before the first group; no group, no output\<close>
  "unified_diff a b fromfile tofile lineterm =
     (case get_grouped_opcodes 3 a b of
        [] \<Rightarrow> []
      | groups \<Rightarrow>
          [''--- '' @ fromfile @ lineterm, ''+++ '' @ tofile @ lineterm]
          @ concat (map (group_lines a b lineterm) groups))"

definition compare_xml :: "string \<Rightarrow> string \<Rightarrow> string" where
  "compare_xml old_content new_content =
     (let old_lines = splitlines (normalize_xml_for_comparison old_content);
          new_lines = splitlines (normalize_xml_for_comparison new_content)
      in concat (unified_diff old_lines new_lines ''Previous'' ''Current'' ''''))"

section \<open>Notifier and change detector\<close>

definition say :: "message \<Rightarrow> store \<Rightarrow> store" where
  "say m st = st\<lparr>events := events st @ [Printed m]\<rparr>"

definition send_email_notification ::
  "config \<Rightarrow> env \<Rightarrow> string \<Rightarrow> string option \<Rightarrow> string \<Rightarrow> string \<Rightarrow> string \<Rightarrow> string \<Rightarrow> store
   \<Rightarrow> bool \<times> store" where
  \<comment> \<open>both message bodies hold \<^verbatim>\<open>diff_text[:5000]\<close>; every error of the SMTP dialogue is caught\<close>
  "send_email_notification cfg e rin old_pubid new_pubid diff_text old_file new_file st0 =
     (let st = st0\<lparr>events := events st0
                  @ [Notifier_Called rin old_pubid new_pubid diff_text old_file new_file]\<rparr>;
          smtp_config = email cfg
      in if username smtp_config = [] \<or> password smtp_config = []
         then (False, say Email_Not_Configured st)
         else if smtp_ok e
         then (True, say (Email_Sent_To (to_address smtp_config))
                 (st\<lparr>events := events st @ [Email_Sent rin old_pubid new_pubid (take 5000 diff_text)]\<rparr>))
         else (False, say Email_Error st))"

definition monitor_rin ::
  "(string \<Rightarrow> 'd) \<Rightarrow> config \<Rightarrow> env \<Rightarrow> string \<Rightarrow> store \<Rightarrow> error + (bool \<times> store)" where
  "monitor_rin md5 cfg e rin st0 =
     (let st = say (Checking_RIN rin) st0
      in case get_available_agendas (catalog e) of
        Inl err \<Rightarrow> Inl err
      | Inr available_pubids \<Rightarrow>
          (case available_pubids of
             [] \<Rightarrow> Inr (False, say No_Agendas st)
           | latest_pubid # _ \<Rightarrow>
               let st = say (Latest_Agenda latest_pubid) st
               in (case document e of
                     None \<Rightarrow> Inr (False, say Failed_To_Fetch (say Error_Fetching st))
                   | Some current_xml \<Rightarrow>
                       if current_xml = [] then Inr (False, say Failed_To_Fetch st)
                       else if contains ''not found'' (lower current_xml) \<or> length current_xml < 100
                       then Inr (False, say (RIN_Not_Found latest_pubid) st)
                       else
                         (case get_latest_file_for_rin st rin of
                            (previous_pubid, Some previous_file) \<Rightarrow>
                              let previous_xml = content previous_file;
                                  current_hash = get_content_hash md5 current_xml;
                                  previous_hash = get_content_hash md5 previous_xml
                              in if current_hash \<noteq> previous_hash
                                 then
                                   let st = say (Change_Detected previous_pubid latest_pubid) st;
                                       (new_file, st) = save_rin_xml cfg e rin latest_pubid current_xml st;
                                       diff = compare_xml previous_xml current_xml;
                                       (sent, st) = send_email_notification cfg e rin previous_pubid
                                                      latest_pubid diff (fname previous_file) new_file st
                                   in Inr (True, st)
                                 else
                                   let st = say No_Changes st;
                                       (new_file, st) = save_rin_xml cfg e rin latest_pubid current_xml st
                                   in Inr (False, st)
                          | (previous_pubid, None) \<Rightarrow>
                              let st = say (Saving_Baseline latest_pubid) st;
                                  (new_file, st) = save_rin_xml cfg e rin latest_pubid current_xml st
                              in Inr (False, st)))))"

fun run_loop ::
  "(string \<Rightarrow> 'd) \<Rightarrow> config \<Rightarrow> (nat \<Rightarrow> env) \<Rightarrow> nat \<Rightarrow> string list \<Rightarrow> nat \<Rightarrow> store
   \<Rightarrow> error + (nat \<times> store)" where
  \<comment> \<open>the loop over the identifiers; round \<open>n\<close> runs in the environment \<open>world n\<close>\<close>
  "run_loop md5 cfg world n [] changes st = Inr (changes, st)"
| "run_loop md5 cfg world n (rin # rest) changes st =
     (case monitor_rin md5 cfg (world n) rin st of
        Inl err \<Rightarrow> Inl err
      | Inr (changed, st') \<Rightarrow>
          run_loop md5 cfg world (Suc n) rest (if changed then changes + 1 else changes) st')"

definition run :: "(string \<Rightarrow> 'd) \<Rightarrow> config \<Rightarrow> (nat \<Rightarrow> env) \<Rightarrow> store \<Rightarrow> error + (nat \<times> store)" where
  \<comment> \<open>the banner lines and the two lines with the time of day are not kept; the result is
      the number of changes that the last line prints\<close>
  "run md5 cfg world st =
     (case (case rins cfg of None \<Rightarrow> [] | Some rs \<Rightarrow> rs) of
        [] \<Rightarrow> Inr (0, say No_RINs st)
      | rs \<Rightarrow>
          (case run_loop md5 cfg world 0 rs 0 (say (Monitoring (length rs)) st) of
             Inl err \<Rightarrow> Inl err
           | Inr (changes, st') \<Rightarrow> Inr (changes, say (Complete changes) st')))"

definition main :: "(string \<Rightarrow> 'd) \<Rightarrow> config option \<Rightarrow> (nat \<Rightarrow> env) \<Rightarrow> store \<Rightarrow> error + (nat \<times> store)" where
  "main md5 file world st =
     (case init file of
        Inl err \<Rightarrow> Inl err
      | Inr cfg \<Rightarrow> run md5 cfg world st)"

section \<open>Observations on a store\<close>

definition is_write :: "event \<Rightarrow> bool" where
  "is_write ev = (case ev of Wrote name text \<Rightarrow> True | _ \<Rightarrow> False)"

definition is_call :: "event \<Rightarrow> bool" where
  "is_call ev = (case ev of Notifier_Called rin old new diff old_file new_file \<Rightarrow> True | _ \<Rightarrow> False)"

definition is_mail :: "event \<Rightarrow> bool" where
  "is_mail ev = (case ev of Email_Sent rin old new preview \<Rightarrow> True | _ \<Rightarrow> False)"

definition writes :: "store \<Rightarrow> event list" where
  \<comment> \<open>the snapshots written so far, oldest first\<close>
  "writes st = filter is_write (events st)"

definition notifier_calls :: "store \<Rightarrow> event list" where
  "notifier_calls st = filter is_call (events st)"

definition mails :: "store \<Rightarrow> event list" where
  "mails st = filter is_mail (events st)"

text \<open>
  A sequence of write-and-sweep cycles on one identifier: each cycle is one call of
  \<^verbatim>\<open>save_rin_xml\<close> with its batch id, its text and the environment of its pass.
\<close>

type_synonym cycle = "string \<times> string \<times> env"

fun save_all :: "config \<Rightarrow> string \<Rightarrow> cycle list \<Rightarrow> store \<Rightarrow> store" where
  "save_all cfg rin [] st = st"
| "save_all cfg rin ((pubid, text, e) # ws) st =
     save_all cfg rin ws (snd (save_rin_xml cfg e rin pubid text st))"




definition fetched_ok :: "string \<Rightarrow> bool" where
  \<comment> \<open>the response passes the two checks of \<^verbatim>\<open>monitor_rin\<close> on the fetched text\<close>
  "fetched_ok xml = (\<not> contains ''not found'' (lower xml) \<and> 100 \<le> length xml)"

definition empty_store :: store where
  "empty_store = \<lparr>dirs = Map.empty, events = []\<rparr>"

definition clock :: "string \<Rightarrow> nat \<Rightarrow> nat \<Rightarrow> env" where
  \<comment> \<open>an environment of which a cycle reads the clock and the directory position only\<close>
  "clock timestamp t position =
     \<lparr>catalog = Unreachable, document = None, stamp = timestamp, mtime_now = t,
      slot = position, smtp_ok = False\<rparr>"


definition written :: "error + (bool \<times> store) \<Rightarrow> event list option" where
  "written r = (case r of Inl err \<Rightarrow> None | Inr (changed, st) \<Rightarrow> Some (writes st))"

definition notified :: "error + (bool \<times> store) \<Rightarrow> event list option" where
  "notified r = (case r of Inl err \<Rightarrow> None | Inr (changed, st) \<Rightarrow> Some (notifier_calls st))"

definition mailed :: "error + (bool \<times> store) \<Rightarrow> event list option" where
  "mailed r = (case r of Inl err \<Rightarrow> None | Inr (changed, st) \<Rightarrow> Some (mails st))"



definition sample_page :: catalog where
  "sample_page = Page [''/public/do/XMLViewFileAction?f=REGINFO_RIN_DATA_202504.xml'',
                       ''/public/do/XMLViewFileAction?f=REGINFO_RIN_DATA_202510.xml'']"

definition sample_rule :: "string \<Rightarrow> string \<Rightarrow> string" where
  \<comment> \<open>a document of more than 100 characters with a run date and a payload\<close>
  "sample_rule run_date payload =
     ''<RIN_INFO RUN_DATE='' @ [CHR 0x22] @ run_date @ [CHR 0x22] @ ''><RIN>1234-AB01</RIN>''
     @ ''<AGENCY>Department of Examples</AGENCY><RULE_TITLE>A rule about samples</RULE_TITLE>''
     @ ''<ABSTRACT>'' @ payload @ ''</ABSTRACT></RIN_INFO>''"

definition text_digest :: "string \<Rightarrow> string" where
  \<comment> \<open>a digest without collisions, for statements that need some concrete digest\<close>
  "text_digest s = s"

definition pass_env :: "string \<Rightarrow> string \<Rightarrow> nat \<Rightarrow> env" where
  \<comment> \<open>the environment of a pass that finds the sample catalog page and fetches \<open>doc\<close>\<close>
  "pass_env doc timestamp t =
     \<lparr>catalog = sample_page, document = Some doc, stamp = timestamp, mtime_now = t,
      slot = 0, smtp_ok = True\<rparr>"

section \<open>The normalizer: lemmas\<close>

lemma re_sub_length: "length (re_sub m s) \<le> length s"
proof (induction m s rule: re_sub.induct)
  case (1 m)
  then show ?case by simp
next
  case (2 m c cs)
  then show ?case by (auto split: option.splits)
qed

lemma re_sub_fixed_iff:
  assumes "proper m"
  shows "re_sub m s = s \<longleftrightarrow> \<not> has_match m s"
proof (induction s)
  case Nil
  then show ?case by simp
next
  case (Cons c cs)
  show ?case
  proof (cases "m (c # cs)")
    case None
    then show ?thesis using Cons by simp
  next
    case (Some rest)
    with assms have short: "length rest \<le> length cs"
      unfolding proper_def by fastforce
    have "length (re_sub m rest) \<le> length rest" by (rule re_sub_length)
    with short have "re_sub m rest \<noteq> c # cs" by auto
    with Some short show ?thesis by simp
  qed
qed

lemma re_sub_shrinks: "re_sub m s \<noteq> s \<Longrightarrow> length (re_sub m s) < length s"
proof (induction m s rule: re_sub.induct)
  case (1 m)
  then show ?case by simp
next
  case (2 m c cs)
  show ?case
  proof (cases "m (c # cs)")
    case None
    with 2 show ?thesis by auto
  next
    case (Some rest)
    show ?thesis
    proof (cases "length rest \<le> length cs")
      case True
      have "length (re_sub m rest) \<le> length rest" by (rule re_sub_length)
      with True Some show ?thesis by simp
    next
      case False
      with 2 Some show ?thesis by auto
    qed
  qed
qed

lemma passes_length: "length (foldl (\<lambda>c m. re_sub m c) s ms) \<le> length s"
proof (induction ms arbitrary: s)
  case Nil
  then show ?case by simp
next
  case (Cons m ms)
  have "length (foldl (\<lambda>c m. re_sub m c) (re_sub m s) ms) \<le> length (re_sub m s)"
    by (rule Cons.IH)
  also have "\<dots> \<le> length s" by (rule re_sub_length)
  finally show ?case by simp
qed

lemma passes_fixed_iff:
  assumes "\<forall>m \<in> set ms. proper m"
  shows "foldl (\<lambda>c m. re_sub m c) s ms = s \<longleftrightarrow> \<not> list_ex (\<lambda>m. has_match m s) ms"
  using assms
proof (induction ms)
  case Nil
  then show ?case by simp
next
  case (Cons m ms)
  then have pm: "proper m" and IH: "foldl (\<lambda>c m. re_sub m c) s ms = s \<longleftrightarrow> \<not> list_ex (\<lambda>m. has_match m s) ms"
    by simp_all
  show ?case
  proof (cases "re_sub m s = s")
    case True
    with re_sub_fixed_iff [OF pm, of s] IH show ?thesis by simp
  next
    case False
    then have "length (re_sub m s) < length s" by (rule re_sub_shrinks)
    moreover have "length (foldl (\<lambda>c m. re_sub m c) (re_sub m s) ms) \<le> length (re_sub m s)"
      by (rule passes_length)
    ultimately have "foldl (\<lambda>c m. re_sub m c) (re_sub m s) ms \<noteq> s" by auto
    with False re_sub_fixed_iff [OF pm, of s] show ?thesis by simp
  qed
qed

lemma strip_literal_length:
  "strip_literal ic p s = Some r \<Longrightarrow> length r + length p = length s"
  by (induction ic p s rule: strip_literal.induct) (auto split: if_splits)

lemma after_first_length: "after_first p s = Some r \<Longrightarrow> length r \<le> length s"
proof (induction p s rule: after_first.induct)
  case (1 pat)
  then show ?case by (auto dest: strip_literal_length)
next
  case (2 pat c cs)
  then show ?case by (auto split: option.splits dest!: strip_literal_length)
qed

lemma proper_comment: "proper comment_matcher"
  unfolding proper_def comment_matcher_def
  by (auto split: option.splits dest!: strip_literal_length after_first_length)

lemma dropWhile_quote_length:
  "dropWhile P xs = q # r \<Longrightarrow> length r < length xs"
  by (metis length_dropWhile_le length_Cons Suc_le_lessD)

lemma proper_attr: "proper (attr_matcher ic name)"
proof -
  have "length r < length s" if "attr_matcher ic name s = Some r" for s r
  proof -
    from that obtain r1 q r2 q' where
      a: "strip_literal ic (name @ ''='') (dropWhile is_space s) = Some r1"
      and b: "r1 = q # r2" and c: "dropWhile (\<lambda>c. \<not> is_quote c) r2 = q' # r"
      unfolding attr_matcher_def by (auto split: if_splits option.splits list.splits)
    from a have "length r1 \<le> length (dropWhile is_space s)"
      by (auto dest: strip_literal_length)
    also have "\<dots> \<le> length s" by (rule length_dropWhile_le)
    finally have "length r1 \<le> length s" .
    moreover from c have "length r < length r2" by (rule dropWhile_quote_length)
    ultimately show ?thesis using b by simp
  qed
  then show ?thesis unfolding proper_def by blast
qed

lemma proper_matchers: "\<forall>m \<in> set matchers. proper m"
  by (simp add: matchers_def proper_attr proper_comment)

section \<open>The snapshot store: lemmas\<close>

lemma strip_literal_append: "strip_literal False p (p @ s) = Some s"
  by (induction p) (auto simp: char_eq_def)
















lemma overwrite_names:
  "map fname (map (\<lambda>f. if fname f = name then f\<lparr>mtime := t, content := text\<rparr> else f) d) = map fname d"
  by (induction d) auto

lemma set_insert_at: "set (take n d @ [r] @ drop n d) = insert r (set d)"
proof -
  have "set (take n d) \<union> set (drop n d) = set d"
    by (metis append_take_drop_id set_append)
  then show ?thesis by auto
qed

lemma names_write_file: "fname ` set (write_file e name text d) = insert name (fname ` set d)"
proof (cases "name \<in> fname ` set d")
  case True
  have "fname ` set (write_file e name text d)
      = set (map fname (map (\<lambda>f. if fname f = name then f\<lparr>mtime := mtime_now e, content := text\<rparr> else f) d))"
    using True by (simp only: write_file_def if_True set_map)
  also have "\<dots> = fname ` set d" by (simp only: overwrite_names set_map)
  finally show ?thesis using True by auto
next
  case False
  then have "write_file e name text d
      = take (slot e) d @ [\<lparr>fname = name, mtime = mtime_now e, content = text\<rparr>] @ drop (slot e) d"
    by (simp only: write_file_def if_False)
  then have "set (write_file e name text d)
      = insert \<lparr>fname = name, mtime = mtime_now e, content = text\<rparr> (set d)"
    by (simp only: set_insert_at)
  then show ?thesis by simp
qed

lemma written_name_listed: "name \<in> fname ` set (write_file e name text d)"
  by (simp add: names_write_file)

















section \<open>The change detector: lemmas\<close>

lemma files_of_say [simp]: "files_of (say m st) rin = files_of st rin"
  by (simp add: say_def files_of_def)

lemma dirs_say [simp]: "dirs (say m st) = dirs st"
  by (simp add: say_def)

lemma events_say [simp]: "events (say m st) = events st @ [Printed m]"
  by (simp add: say_def)

lemma latest_say [simp]: "get_latest_file_for_rin (say m st) rin = get_latest_file_for_rin st rin"
  by (simp add: get_latest_file_for_rin_def)


lemma monitor_rejected:
  assumes "get_available_agendas (catalog e) = Inr (p # ps)" "document e = Some xml"
    "\<not> fetched_ok xml"
  shows "monitor_rin md5 cfg e rin st
         = Inr (False, say (if xml = [] then Failed_To_Fetch else RIN_Not_Found p)
                  (say (Latest_Agenda p) (say (Checking_RIN rin) st)))"
  using assms by (simp add: monitor_rin_def Let_def fetched_ok_def not_le)





lemma say_observed [simp]:
  "writes (say m st) = writes st" "notifier_calls (say m st) = notifier_calls st"
  "mails (say m st) = mails st"
  by (simp_all add: writes_def notifier_calls_def mails_def is_write_def is_call_def is_mail_def)

subsection \<open>C1: retention\<close>




subsection \<open>C2: change detection\<close>



section \<open>The claims\<close>

subsection \<open>C3: normalizing twice\<close>

text \<open>
  Claim C3 says that the normalizer is idempotent on every raw text. One pass of the seven
  substitutions can join the text before and behind a removed span into a new span of the
  same kind, which that pass no longer sees: in \<^verbatim>\<open><!-<!-- a -->- b -->\<close> the inner comment
  goes and leaves the comment \<^verbatim>\<open><!-- b -->\<close>, which a second pass removes.
\<close>

theorem normalize_not_idempotent:
  "normalize_xml_for_comparison (normalize_xml_for_comparison ''<!-<!-- a -->- b -->'')
   \<noteq> normalize_xml_for_comparison ''<!-<!-- a -->- b -->''"
  by code_simp

text \<open>
  C3 as amended: for every raw text \<open>T\<close>, normalizing the normalized text gives it back
  if and only if the normalized text holds no span that one of the seven substitutions
  removes (no attribute \<^verbatim>\<open>RUN_DATE\<close>, \<^verbatim>\<open>run_date\<close>, \<^verbatim>\<open>RUNDATE\<close>, \<^verbatim>\<open>rundate\<close>,
  \<^verbatim>\<open>timestamp\<close> or \<^verbatim>\<open>generated\<close> behind white space with a quoted value, and no closed
  comment). On a text without such a span the normalizer changes nothing.
\<close>

theorem normalize_idempotent_iff:
  "normalize_xml_for_comparison (normalize_xml_for_comparison T) = normalize_xml_for_comparison T
   \<longleftrightarrow> \<not> has_volatile (normalize_xml_for_comparison T)"
  unfolding has_volatile_def
  using passes_fixed_iff [OF proper_matchers, of "normalize_xml_for_comparison T"]
  by (simp add: normalize_xml_for_comparison_def)

theorem normalize_idempotent_witness:
  "\<not> has_volatile (normalize_xml_for_comparison
        ''<rule id=1 RUN_DATE='2024-01-01'>data v1<!-- note --></rule>'')
   \<and> normalize_xml_for_comparison (normalize_xml_for_comparison
        ''<rule id=1 RUN_DATE='2024-01-01'>data v1<!-- note --></rule>'')
     = normalize_xml_for_comparison ''<rule id=1 RUN_DATE='2024-01-01'>data v1<!-- note --></rule>''"
proof -
  have h: "\<not> has_volatile (normalize_xml_for_comparison
        ''<rule id=1 RUN_DATE='2024-01-01'>data v1<!-- note --></rule>'')"
    by code_simp
  with normalize_idempotent_iff [of "''<rule id=1 RUN_DATE='2024-01-01'>data v1<!-- note --></rule>''"]
  show ?thesis by blast
qed

subsection \<open>C4: the latest snapshot\<close>

text \<open>
  Claim C4 says that the lookup returns the snapshot written last, by modification time.
  \<^verbatim>\<open>get_latest_file_for_rin\<close> sorts the paths, not the modification times, and the
  batch id stands before the time stamp in a file name. After a pass under batch 202510
  and a later pass under batch 202504 the lookup returns the file of the first pass,
  while the sweep of \<^verbatim>\<open>cleanup_old_files\<close>, which sorts by modification time, counts
  the file of the second pass as the newest.
\<close>

theorem latest_lookup_by_name:
  "get_latest_file_for_rin
     (save_all default_config ''1234-AB01''
        [(''202510'', ''text of the first pass'', clock ''20251101_090000'' 1 0),
         (''202504'', ''text of the second pass'', clock ''20251102_090000'' 2 0)]
        empty_store) ''1234-AB01''
   = (Some ''202510'',
      Some \<lparr>fname = ''rin_1234-AB01_202510_20251101_090000.xml'', mtime = 1,
             content = ''text of the first pass''\<rparr>)
   \<and> sorted_desc mtime (files_of
     (save_all default_config ''1234-AB01''
        [(''202510'', ''text of the first pass'', clock ''20251101_090000'' 1 0),
         (''202504'', ''text of the second pass'', clock ''20251102_090000'' 2 0)]
        empty_store) ''1234-AB01'')
   = [\<lparr>fname = ''rin_1234-AB01_202504_20251102_090000.xml'', mtime = 2,
        content = ''text of the second pass''\<rparr>,
      \<lparr>fname = ''rin_1234-AB01_202510_20251101_090000.xml'', mtime = 1,
        content = ''text of the first pass''\<rparr>]"
  by code_simp

subsection \<open>C5: a snapshot on every successful fetch\<close>




subsection \<open>C6: the catalog fallback\<close>

text \<open>
  Claim C6 says that the catalog resolver falls back to generated batch ids and never
  raises. The fallback of \<^verbatim>\<open>get_available_agendas\<close> is the call
  \<^verbatim>\<open>self.generate_default_pubids()\<close>, and the class has no such method: with the
  catalog out of reach, or with a page without an accepted link, the call raises
  \<^verbatim>\<open>AttributeError\<close>, which leaves the resolver, the pass and the run.
\<close>

theorem catalog_fallback_raises:
  "get_available_agendas Unreachable = Inl AttributeError
   \<and> get_available_agendas (Page []) = Inl AttributeError
   \<and> get_available_agendas (Page [''/public/do/eAgendaMain'']) = Inl AttributeError
   \<and> main digest (Some (default_config\<lparr>rins := Some [''1234-AB01'']\<rparr>))
        (\<lambda>n. clock ''20251101_090000'' 1 0) empty_store = Inl AttributeError"
proof -
  have u: "get_available_agendas Unreachable = Inl AttributeError" by code_simp
  have "get_available_agendas (Page []) = Inl AttributeError" by code_simp
  moreover have "get_available_agendas (Page [''/public/do/eAgendaMain'']) = Inl AttributeError"
    by code_simp
  moreover have "main digest (Some (default_config\<lparr>rins := Some [''1234-AB01'']\<rparr>))
        (\<lambda>n. clock ''20251101_090000'' 1 0) empty_store = Inl AttributeError"
    by (simp add: main_def init_def load_config_def run_def monitor_rin_def clock_def u)
  ultimately show ?thesis using u by simp
qed

subsection \<open>C7: a missing document\<close>

text \<open>
  Claim C7: when the fetched response holds the words \<^verbatim>\<open>not found\<close> in any case or is
  shorter than 100 characters, the pass of this identifier ends with the result
  \<^verbatim>\<open>False\<close>: the store keeps its files, nothing is written, the notifier is not called and
  no mail is sent, and the loop goes on with the next identifier and the same count of
  changes. The pass prints that the identifier was not found (for the empty response,
  which the check before it catches, that the fetch failed).
\<close>

theorem not_found_ends_pass:
  assumes "get_available_agendas (catalog (world n)) = Inr (p # ps)"
    and "document (world n) = Some F"
    and "contains ''not found'' (lower F) \<or> length F < 100"
  shows "monitor_rin digest cfg (world n) rin st
           = Inr (False, say (if F = [] then Failed_To_Fetch else RIN_Not_Found p)
                    (say (Latest_Agenda p) (say (Checking_RIN rin) st)))
       \<and> written (monitor_rin digest cfg (world n) rin st) = Some (writes st)
       \<and> notified (monitor_rin digest cfg (world n) rin st) = Some (notifier_calls st)
       \<and> mailed (monitor_rin digest cfg (world n) rin st) = Some (mails st)
       \<and> run_loop digest cfg world n (rin # rest) changes st
           = run_loop digest cfg world (Suc n) rest changes
               (say (if F = [] then Failed_To_Fetch else RIN_Not_Found p)
                  (say (Latest_Agenda p) (say (Checking_RIN rin) st)))"
proof -
  from assms(3) have "\<not> fetched_ok F" by (auto simp: fetched_ok_def)
  from monitor_rejected [OF assms(1,2) this]
  have m: "monitor_rin digest cfg (world n) rin st
           = Inr (False, say (if F = [] then Failed_To_Fetch else RIN_Not_Found p)
                    (say (Latest_Agenda p) (say (Checking_RIN rin) st)))" .
  show ?thesis unfolding m
    by (simp add: written_def notified_def mailed_def m)
qed

theorem not_found_witness:
  "monitor_rin text_digest default_config (pass_env ''<html>Page Not Found</html>'' ''20251101_090000'' 1)
       ''1234-AB01'' empty_store
     = Inr (False, say (if ''<html>Page Not Found</html>'' = [] then Failed_To_Fetch
                        else RIN_Not_Found ''202510'')
              (say (Latest_Agenda ''202510'') (say (Checking_RIN ''1234-AB01'') empty_store)))
   \<and> written (monitor_rin text_digest default_config
        (pass_env ''<html>Page Not Found</html>'' ''20251101_090000'' 1) ''1234-AB01'' empty_store)
     = Some (writes empty_store)
   \<and> notified (monitor_rin text_digest default_config
        (pass_env ''<html>Page Not Found</html>'' ''20251101_090000'' 1) ''1234-AB01'' empty_store)
     = Some (notifier_calls empty_store)
   \<and> mailed (monitor_rin text_digest default_config
        (pass_env ''<html>Page Not Found</html>'' ''20251101_090000'' 1) ''1234-AB01'' empty_store)
     = Some (mails empty_store)
   \<and> run_loop text_digest default_config
        (\<lambda>n. pass_env ''<html>Page Not Found</html>'' ''20251101_090000'' 1) 0
        (''1234-AB01'' # [''5678-CD02'']) 0 empty_store
     = run_loop text_digest default_config
        (\<lambda>n. pass_env ''<html>Page Not Found</html>'' ''20251101_090000'' 1) (Suc 0)
        [''5678-CD02''] 0
        (say (if ''<html>Page Not Found</html>'' = [] then Failed_To_Fetch
              else RIN_Not_Found ''202510'')
           (say (Latest_Agenda ''202510'') (say (Checking_RIN ''1234-AB01'') empty_store)))"
proof -
  let ?e = "pass_env ''<html>Page Not Found</html>'' ''20251101_090000'' 1"
  have a: "get_available_agendas (catalog ((\<lambda>n. ?e) (0::nat))) = Inr (''202510'' # [''202504''])"
    by code_simp
  have d: "document ((\<lambda>n. ?e) (0::nat)) = Some ''<html>Page Not Found</html>''" by code_simp
  have f: "contains ''not found'' (lower ''<html>Page Not Found</html>'')
      \<or> length ''<html>Page Not Found</html>'' < 100"
    by code_simp
  show ?thesis
    by (rule not_found_ends_pass [where world = "\<lambda>n. ?e" and n = 0, OF a d f])
qed

subsection \<open>C8: a missing configuration file\<close>

text \<open>
  Claim C8 says that a missing configuration file yields the default configuration and
  that startup completes. \<^verbatim>\<open>create_default_config\<close> builds the default dictionary and
  does not return it: \<^verbatim>\<open>load_config\<close> yields \<^verbatim>\<open>None\<close>, and the next statement of
  \<^verbatim>\<open>__init__\<close>, which reads the data directory from the configuration, raises.
\<close>

theorem missing_config_fails_startup:
  "load_config None = PyNone \<and> init None = Inl AttributeError
   \<and> main digest None world st = Inl AttributeError"
  by (simp add: load_config_def create_default_config_def init_def main_def)

subsection \<open>C9: the diff text\<close>

text \<open>
  Claim C9 says that the diff of a text with itself is empty, that texts of different
  fingerprints have a diff that is not empty, and that a diff that is not empty is a
  unified diff with the labels Previous and Current. \<^verbatim>\<open>compare_xml\<close> asks
  \<^verbatim>\<open>unified_diff\<close> for lines without a line end (\<^verbatim>\<open>lineterm=''\<close>) and joins the lines
  with nothing between them: the two header lines, the hunk header and the first line of
  the hunk are one line of the output.
\<close>

theorem compare_xml_header_fused:
  "compare_xml (sample_rule ''2024-02-01'' ''data v1'') (sample_rule ''2024-03-01'' ''data v2'')
   = ''--- Previous+++ Current@@ -1 +1 @@''
     @ ''-'' @ normalize_xml_for_comparison (sample_rule ''2024-02-01'' ''data v1'')
     @ ''+'' @ normalize_xml_for_comparison (sample_rule ''2024-03-01'' ''data v2'')"
  by code_simp

subsection \<open>C10: retention count zero\<close>



end
